theory Spec2Isabelle
  imports Main
begin

section \<open>Values thrown by the server code\<close>

text \<open>
  A JavaScript \<open>throw\<close> or promise rejection carries any value. The code under study
  tests \<open>err instanceof Error\<close>, so the model keeps the two kinds apart: an \<open>Error\<close>
  object with its message, and any other rejected value.
\<close>

datatype thrown = Error string | NonErrorValue

section \<open>The battle grid (model/database/match/state)\<close>

text \<open>
  The interfaces \<open>GridCoordinates\<close>, \<open>Ship\<close>, \<open>BattleshipGrid\<close> and \<open>MatchDocument\<close> are
  imported by \<open>match-terminated.ts\<close>; the records below carry the fields that file reads.
  Cell indices are whole numbers, held as \<open>int\<close>.
\<close>

record GridCoordinates =
  row :: int
  col :: int

record Ship =
  coordinates :: "GridCoordinates list"

record BattleshipGrid =
  ships :: "Ship list"
  shotsReceived :: "GridCoordinates list"

record PlayerState =
  grid :: BattleshipGrid

record MatchDocument =
  player1 :: PlayerState
  player2 :: PlayerState

section \<open>Statistics computed by MatchTerminatedEmitter\<close>

text \<open>\<open>getTotalShotsFired\<close>: the two \<open>shotsReceived\<close> arrays, their lengths added.\<close>

definition getTotalShotsFired :: "MatchDocument \<Rightarrow> nat" where
  "getTotalShotsFired match =
     (let p1ReceivedShots = shotsReceived (grid (player1 match));
          p2ReceivedShots = shotsReceived (grid (player2 match))
      in length p1ReceivedShots + length p2ReceivedShots)"

text \<open>
  \<open>isShipDestroyed\<close> first collects the rows and the columns of the ship, then walks the
  shots with a counter: a shot counts when its row is among the ship's rows and its column
  among the ship's columns.
\<close>

definition shipRows :: "Ship \<Rightarrow> int list" where
  "shipRows ship = map row (coordinates ship)"

definition shipCols :: "Ship \<Rightarrow> int list" where
  "shipCols ship = map col (coordinates ship)"

fun countHits :: "int list \<Rightarrow> int list \<Rightarrow> GridCoordinates list \<Rightarrow> nat \<Rightarrow> nat" where
  "countHits rs cs [] hits = hits"
| "countHits rs cs (shot # shots) hits =
     countHits rs cs shots
       (if row shot \<in> set rs \<and> col shot \<in> set cs then hits + 1 else hits)"

definition hitsMessage :: string where
  "hitsMessage =
     ''Ship hits shouldn'' @ [CHR 0x27] @
     ''t be higher than the number of pieces of the ships''"

definition isShipDestroyed :: "Ship \<Rightarrow> GridCoordinates list \<Rightarrow> thrown + bool" where
  "isShipDestroyed ship shots =
     (let hits = countHits (shipRows ship) (shipCols ship) shots 0
      in if hits > length (coordinates ship) then Inl (Error hitsMessage)
         else Inr (length (coordinates ship) = hits))"

text \<open>
  \<open>getTotalShipsDestroyed\<close>: two nested \<open>forEach\<close> loops over \<open>[player1.grid, player2.grid]\<close>
  and over the ships of each grid, sharing the counter \<open>totShipsDestroyed\<close>. An error thrown
  by \<open>isShipDestroyed\<close> leaves both loops.
\<close>

fun forEachShip :: "GridCoordinates list \<Rightarrow> Ship list \<Rightarrow> nat \<Rightarrow> thrown + nat" where
  "forEachShip shots [] tot = Inr tot"
| "forEachShip shots (ship # rest) tot =
     (case isShipDestroyed ship shots of
        Inl err \<Rightarrow> Inl err
      | Inr destroyed \<Rightarrow> forEachShip shots rest (if destroyed then tot + 1 else tot))"

fun forEachGrid :: "BattleshipGrid list \<Rightarrow> nat \<Rightarrow> thrown + nat" where
  "forEachGrid [] tot = Inr tot"
| "forEachGrid (g # gs) tot =
     (case forEachShip (shotsReceived g) (ships g) tot of
        Inl err \<Rightarrow> Inl err
      | Inr tot' \<Rightarrow> forEachGrid gs tot')"

definition getTotalShipsDestroyed :: "MatchDocument \<Rightarrow> thrown + nat" where
  "getTotalShipsDestroyed match =
     (let grids = [grid (player1 match), grid (player2 match)];
          totShipsDestroyed = 0
      in forEachGrid grids totShipsDestroyed)"

text \<open>
  The grid invariants of the data model, as far as the statistics depend on them: the cells
  of a ship lie on one row or on one column, each next to the one before it, and no cell of
  a grid has been fired on twice.
\<close>

definition collinear :: "Ship \<Rightarrow> bool" where
  "collinear ship =
     ((\<forall>c \<in> set (coordinates ship). \<forall>d \<in> set (coordinates ship). row c = row d) \<or>
      (\<forall>c \<in> set (coordinates ship). \<forall>d \<in> set (coordinates ship). col c = col d))"

definition adjacent :: "GridCoordinates \<Rightarrow> GridCoordinates \<Rightarrow> bool" where
  "adjacent c d = (\<bar>row c - row d\<bar> + \<bar>col c - col d\<bar> = 1)"

fun contiguous :: "GridCoordinates list \<Rightarrow> bool" where
  "contiguous (c # d # cs) = (adjacent c d \<and> contiguous (d # cs))"
| "contiguous cs = True"

definition ship_inv :: "Ship \<Rightarrow> bool" where
  "ship_inv ship = (collinear ship \<and> contiguous (coordinates ship))"

definition grid_inv :: "BattleshipGrid \<Rightarrow> bool" where
  "grid_inv g = ((\<forall>ship \<in> set (ships g). ship_inv ship) \<and> distinct (shotsReceived g))"

text \<open>
  The data model's reading of "destroyed", against which the loop above is compared: a shot
  hits a ship when it is one of the ship's cells, and a ship of length L is destroyed when
  exactly L of the shots received by its grid hit it.
\<close>

definition shot_hits :: "Ship \<Rightarrow> GridCoordinates \<Rightarrow> bool" where
  "shot_hits ship shot = (shot \<in> set (coordinates ship))"

definition destroyed_spec :: "Ship \<Rightarrow> GridCoordinates list \<Rightarrow> bool" where
  "destroyed_spec ship shots =
     (length (filter (shot_hits ship) shots) = length (coordinates ship))"

definition ships_destroyed_spec :: "BattleshipGrid \<Rightarrow> nat" where
  "ships_destroyed_spec g =
     length (filter (\<lambda>ship. destroyed_spec ship (shotsReceived g)) (ships g))"

section \<open>Users and their statistics (model/database/user/user.ts)\<close>

text \<open>
  An \<open>ObjectId\<close> is held as its string form, so \<open>toString\<close> is the identity. \<open>UserStats\<close>
  has the seven counters that \<open>user.ts\<close> assigns; they are JavaScript numbers holding whole
  values, modelled as \<open>int\<close>, with the additions of \<open>addMatchStats\<close> rounded as below. Of a user document only the fields read here are kept;
  \<open>user_id\<close> is the document's \<open>_id\<close>.
\<close>

type_synonym ObjectId = string

record UserStats =
  elo :: int
  topElo :: int
  wins :: int
  losses :: int
  shipsDestroyed :: int
  totalShots :: int
  totalHits :: int

record UserDocument =
  user_id :: ObjectId
  username :: string
  stats :: UserStats

text \<open>
  \<open>MatchStatsUpdate\<close> (model/api/match/stats-update), the object literal built in \<open>emit\<close>.
  Its fields carry the prefix \<open>upd_\<close> because two of them share their names with
  \<open>UserStats\<close>.
\<close>

record MatchStatsUpdate =
  upd_winner :: string
  upd_endTime :: int
  upd_totalShots :: nat
  upd_shipsDestroyed :: nat

text \<open>
  The document store. A collection is the list of its documents; \<open>fault\<close>, when set, is the
  message of the error with which the driver rejects every query (a lost connection), so
  that the \<open>catch\<close> branches of the data-access functions are branches of the model.
  \<open>persistedStats\<close> is written only by \<open>persistMatchStats\<close> below.
\<close>

record Database =
  users :: "UserDocument list"
  matches :: "ObjectId \<rightharpoonup> MatchDocument"
  persistedStats :: "ObjectId \<rightharpoonup> MatchStatsUpdate"
  fault :: "string option"

definition UserModel_findOne :: "Database \<Rightarrow> (UserDocument \<Rightarrow> bool) \<Rightarrow> thrown + UserDocument option" where
  "UserModel_findOne db query =
     (case fault db of
        Some msg \<Rightarrow> Inl (Error msg)
      | None \<Rightarrow> Inr (find query (users db)))"

definition save :: "Database \<Rightarrow> UserDocument \<Rightarrow> thrown + (UserDocument \<times> Database)" where
  "save db user =
     (case fault db of
        Some msg \<Rightarrow> Inl (Error msg)
      | None \<Rightarrow>
          Inr (user,
               db\<lparr>users := map (\<lambda>d. if user_id d = user_id user then user else d) (users db)\<rparr>))"

text \<open>
  \<open>err.message\<close>, as read by the \<open>catch\<close> clauses of this file: a value that is not an
  \<open>Error\<close> has no such property, and \<open>new Error(undefined)\<close> has the empty message.
\<close>

definition message :: "thrown \<Rightarrow> string" where
  "message err = (case err of Error msg \<Rightarrow> msg | NonErrorValue \<Rightarrow> [])"

definition getUserById :: "Database \<Rightarrow> ObjectId \<Rightarrow> thrown + UserDocument" where
  "getUserById db userId =
     (case UserModel_findOne db (\<lambda>d. user_id d = userId) of
        Inl err \<Rightarrow> Inl err
      | Inr None \<Rightarrow> Inl (Error ''No user with that identifier'')
      | Inr (Some userDoc) \<Rightarrow> Inr userDoc)"

definition getUserByUsername :: "Database \<Rightarrow> string \<Rightarrow> thrown + UserDocument" where
  "getUserByUsername db name =
     (case UserModel_findOne db (\<lambda>d. username d = name) of
        Inl err \<Rightarrow> Inl (Error ''Internal server error'')
      | Inr None \<Rightarrow> Inl (Error ''No user with that identifier'')
      | Inr (Some userdata) \<Rightarrow> Inr userdata)"

text \<open>
  The \<open>+\<close> of two JavaScript numbers that hold whole values: the exact sum, rounded to the
  nearest number with a 53-bit significand, a tie going to the even significand. Below
  \<open>2^53\<close> in magnitude every whole number is such a number and the sum is exact.
  \<open>excess n\<close> counts the low bits that do not fit. Sums of magnitude \<open>2^1024\<close> and more,
  which JavaScript turns into \<open>Infinity\<close>, are outside this model.
\<close>

function excess :: "nat \<Rightarrow> nat" where
  "excess n = (if n < 2 ^ 53 then 0 else Suc (excess (n div 2)))"
  by pat_completeness auto
termination
  by (relation "measure (\<lambda>n. n)") auto

declare excess.simps [simp del]

definition roundToDouble :: "int \<Rightarrow> int" where
  "roundToDouble x =
     (if \<bar>x\<bar> < 2 ^ 53 then x
      else (let e = excess (nat \<bar>x\<bar>);
                q = \<bar>x\<bar> div 2 ^ e;
                r = \<bar>x\<bar> mod 2 ^ e;
                half = 2 ^ (e - 1);
                m = (if r < half then q
                     else if half < r then q + 1
                     else if even q then q else q + 1)
            in sgn x * (m * 2 ^ e)))"

definition jsAdd :: "int \<Rightarrow> int \<Rightarrow> int" where
  "jsAdd a b = roundToDouble (a + b)"

text \<open>\<open>Number.isSafeInteger\<close> on a whole number: its magnitude is at most \<open>2^53 - 1\<close>.\<close>

definition isSafeInteger :: "int \<Rightarrow> bool" where
  "isSafeInteger x = (\<bar>x\<bar> < 2 ^ 53)"

text \<open>
  \<open>updateUserStats\<close>: the seven fields are assigned one by one from \<open>updatedStats\<close>, then
  the document is saved. A rejection of \<open>getUserById\<close> is caught and thrown again as a new
  \<open>Error\<close> with the same message; \<open>user.save()\<close> is returned without \<open>await\<close>, so its
  rejection passes through as it is.
\<close>

definition updateUserStats :: "Database \<Rightarrow> ObjectId \<Rightarrow> UserStats \<Rightarrow> thrown + (UserDocument \<times> Database)" where
  "updateUserStats db userId updatedStats =
     (case getUserById db userId of
        Inl err \<Rightarrow> Inl (Error (message err))
      | Inr user \<Rightarrow>
          (let s1 = (stats user)\<lparr>topElo := topElo updatedStats\<rparr>;
               s2 = s1\<lparr>elo := elo updatedStats\<rparr>;
               s3 = s2\<lparr>wins := wins updatedStats\<rparr>;
               s4 = s3\<lparr>losses := losses updatedStats\<rparr>;
               s5 = s4\<lparr>shipsDestroyed := shipsDestroyed updatedStats\<rparr>;
               s6 = s5\<lparr>totalShots := totalShots updatedStats\<rparr>;
               s7 = s6\<lparr>totalHits := totalHits updatedStats\<rparr>
           in save db (user\<lparr>stats := s7\<rparr>)))"

text \<open>
  \<open>addMatchStats\<close>. The compound assignment \<open>user.stats.elo += newElo\<close> stores the sum and
  yields it; the sum is then floored at zero and stored again, and \<open>topElo\<close> is raised to it
  when it is larger. Every \<open>+=\<close> is the addition of JavaScript numbers, \<open>jsAdd\<close>.
\<close>

definition addMatchStats ::
  "Database \<Rightarrow> ObjectId \<Rightarrow> int \<Rightarrow> int \<Rightarrow> int \<Rightarrow> bool \<Rightarrow> thrown + (UserDocument \<times> Database)" where
  "addMatchStats db userId newShipsDestroyed newShots newHits didUserWin =
     (case getUserById db userId of
        Inl err \<Rightarrow> Inl (Error (message err))
      | Inr user \<Rightarrow>
          (let newElo = (if didUserWin then 30 else - 20);
               s0 = (stats user)\<lparr>elo := jsAdd (elo (stats user)) newElo\<rparr>;
               newUserElo = elo s0;
               newUserElo = (if newUserElo < 0 then 0 else newUserElo);
               s1 = s0\<lparr>elo := newUserElo\<rparr>;
               s2 = s1\<lparr>topElo := (if newUserElo > topElo s1 then newUserElo else topElo s1)\<rparr>;
               s3 = s2\<lparr>wins := jsAdd (wins s2) (if didUserWin then 1 else 0)\<rparr>;
               s4 = s3\<lparr>losses := jsAdd (losses s3) (if \<not> didUserWin then 1 else 0)\<rparr>;
               s5 = s4\<lparr>shipsDestroyed := jsAdd (shipsDestroyed s4) newShipsDestroyed\<rparr>;
               s6 = s5\<lparr>totalShots := jsAdd (totalShots s5) newShots\<rparr>;
               s7 = s6\<lparr>totalHits := jsAdd (totalHits s6) newHits\<rparr>
           in save db (user\<lparr>stats := s7\<rparr>)))"

text \<open>
  A run of match results for one user, each applied through \<open>addMatchStats\<close> on the store
  left by the one before; the result lists the user's statistics after each update.
\<close>

record MatchResult =
  res_shipsDestroyed :: int
  res_shots :: int
  res_hits :: int
  res_won :: bool

fun addMatchStatsAll ::
  "Database \<Rightarrow> ObjectId \<Rightarrow> MatchResult list \<Rightarrow> thrown + (UserStats list \<times> Database)" where
  "addMatchStatsAll db userId [] = Inr ([], db)"
| "addMatchStatsAll db userId (r # rs) =
     (case addMatchStats db userId (res_shipsDestroyed r) (res_shots r) (res_hits r) (res_won r) of
        Inl err \<Rightarrow> Inl err
      | Inr (user, db') \<Rightarrow>
          (case addMatchStatsAll db' userId rs of
             Inl err \<Rightarrow> Inl err
           | Inr (trace, db'') \<Rightarrow> Inr (stats user # trace, db'')))"

section \<open>The match-terminated event (events/emitters/match-terminated.ts)\<close>

datatype MatchTerminatedReason = PlayerLeftTheGame | PlayerWon

definition reasonValue :: "MatchTerminatedReason \<Rightarrow> string" where
  "reasonValue r =
     (case r of
        PlayerLeftTheGame \<Rightarrow> ''A player has left the game''
      | PlayerWon \<Rightarrow> ''A player has won the game'')"

record MatchTerminatedData =
  winnerUsername :: string
  reason :: MatchTerminatedReason

text \<open>
  \<open>getMatchById\<close> and \<open>updateMatchStats\<close> are imported from model/database/match/match,
  whose text is not among the sources: the emitter is modelled over any pair of such
  functions.
\<close>

record MatchModule =
  getMatchById :: "Database \<Rightarrow> ObjectId \<Rightarrow> thrown + MatchDocument"
  updateMatchStats :: "ObjectId \<Rightarrow> MatchStatsUpdate \<Rightarrow> Database \<Rightarrow> thrown + Database"

record RoomEvent =
  ev_room :: string
  ev_name :: string
  ev_data :: MatchTerminatedData

record World =
  db :: Database
  console :: "string list"
  emitted :: "RoomEvent list"

record MatchTerminatedEmitter =
  eventName :: string
  roomName :: string
  matchId :: ObjectId

text \<open>The constructor: the event name is fixed, the room is the match id as a string.\<close>

definition newMatchTerminatedEmitter :: "ObjectId \<Rightarrow> MatchTerminatedEmitter" where
  "newMatchTerminatedEmitter mId =
     (let eventName = ''match-terminated''
      in \<lparr>eventName = eventName, roomName = mId, matchId = mId\<rparr>)"

text \<open>
  Modelled from the spec: the base class \<open>RoomEmitter\<close> (events/emitters/base/room-emitter)
  is not among the sources. Its \<open>emit\<close> is taken to be the broadcaster contract
  \<open>emitToRoom(roomId, eventName, payload)\<close>: one event, under the emitter's name, sent to
  the emitter's room.
\<close>

definition RoomEmitter_emit :: "MatchTerminatedEmitter \<Rightarrow> MatchTerminatedData \<Rightarrow> World \<Rightarrow> World" where
  "RoomEmitter_emit e data w =
     w\<lparr>emitted := emitted w @ [\<lparr>ev_room = roomName e, ev_name = eventName e, ev_data = data\<rparr>]\<rparr>"

text \<open>
  The body of the \<open>try\<close> block of \<open>emit\<close>. The clock reading \<open>toUnixSeconds(new Date())\<close>
  is the argument \<open>now\<close>.
\<close>

definition updateStatistics ::
  "MatchModule \<Rightarrow> MatchTerminatedEmitter \<Rightarrow> MatchTerminatedData \<Rightarrow> int \<Rightarrow> Database \<Rightarrow> thrown + Database" where
  "updateStatistics mm e data now d =
     (case getUserByUsername d (winnerUsername data) of
        Inl err \<Rightarrow> Inl err
      | Inr winner \<Rightarrow>
          (case getMatchById mm d (matchId e) of
             Inl err \<Rightarrow> Inl err
           | Inr match \<Rightarrow>
               (let shots = getTotalShotsFired match
                in case getTotalShipsDestroyed match of
                     Inl err \<Rightarrow> Inl err
                   | Inr destroyed \<Rightarrow>
                       updateMatchStats mm (matchId e)
                         \<lparr>upd_winner = user_id winner, upd_endTime = now,
                          upd_totalShots = shots, upd_shipsDestroyed = destroyed\<rparr> d)))"

definition logLine :: "string \<Rightarrow> string" where
  "logLine msg =
     ''An error occurred while updating the statistics of the match '' @ [CHR 0x0A] @
     replicate 24 (CHR '' '') @
     ''and sending the termination event. Reason: '' @ msg"

text \<open>
  \<open>emit\<close>: the \<open>catch\<close> clause writes to the console only when the caught value is an
  \<open>Error\<close>; after the \<open>try\<close> statement, whatever happened in it, \<open>super.emit(data)\<close> runs.
\<close>

definition emit :: "MatchModule \<Rightarrow> MatchTerminatedEmitter \<Rightarrow> MatchTerminatedData \<Rightarrow> int \<Rightarrow> World \<Rightarrow> World" where
  "emit mm e data now w =
     (let w' =
        (case updateStatistics mm e data now (db w) of
           Inr d' \<Rightarrow> w\<lparr>db := d'\<rparr>
         | Inl err \<Rightarrow>
             (case err of
                Error msg \<Rightarrow> w\<lparr>console := console w @ [logLine msg]\<rparr>
              | NonErrorValue \<Rightarrow> w))
      in RoomEmitter_emit e data w')"

text \<open>
  Modelled from the spec: the bodies of \<open>getMatchById\<close> and \<open>updateMatchStats\<close> are missing.
  The termination contract says: load the match by id, failing with \<open>MatchNotFoundError\<close>
  if it is absent; persist the \<open>MatchStatsUpdate\<close>. The data model calls the
  \<open>MatchStatsUpdate\<close> derived and write-once, and a second termination attempt a no-op and
  not an error: once statistics are stored for a match, a later write leaves the store as
  it is.
\<close>

definition loadMatch :: "Database \<Rightarrow> ObjectId \<Rightarrow> thrown + MatchDocument" where
  "loadMatch d mId =
     (case matches d mId of
        None \<Rightarrow> Inl (Error ''MatchNotFoundError'')
      | Some match \<Rightarrow> Inr match)"

definition persistMatchStats :: "ObjectId \<Rightarrow> MatchStatsUpdate \<Rightarrow> Database \<Rightarrow> thrown + Database" where
  "persistMatchStats mId upd d =
     (case persistedStats d mId of
        Some written \<Rightarrow> Inr d
      | None \<Rightarrow> Inr (d\<lparr>persistedStats := (persistedStats d)(mId \<mapsto> upd)\<rparr>))"

definition specMatchModule :: MatchModule where
  "specMatchModule = \<lparr>getMatchById = loadMatch, updateMatchStats = persistMatchStats\<rparr>"

section \<open>The pairing scheduler\<close>

text \<open>
  Modelled from the spec: the scheduler (\<open>MatchmakingEngine\<close>, matchmaking/matchmaking-engine)
  and the queue collection are not among the sources; only a test that starts the engine
  is. One tick, in the spec's words: drain the queue into an ordered list preserving
  enqueue order; pair consecutive entries, index 0 with 1, 2 with 3, and so on; if the
  count is odd, the last entry is re-enqueued for the next tick; for each pair create a
  match in status \<open>AwaitingPlacement\<close>. Persisting a pair is taken to succeed.
\<close>

datatype MatchStatus = AwaitingPlacement | InProgress | Terminated

record QueueEntry =
  userId :: ObjectId
  enqueuedAt :: int

record ArrangedMatch =
  firstPlayer :: ObjectId
  secondPlayer :: ObjectId
  status :: MatchStatus

fun pairConsecutive :: "QueueEntry list \<Rightarrow> (QueueEntry \<times> QueueEntry) list \<times> QueueEntry list" where
  "pairConsecutive (a # b # rest) =
     (case pairConsecutive rest of (pairs, left) \<Rightarrow> ((a, b) # pairs, left))"
| "pairConsecutive left = ([], left)"

definition createMatch :: "QueueEntry \<times> QueueEntry \<Rightarrow> ArrangedMatch" where
  "createMatch p =
     \<lparr>firstPlayer = userId (fst p), secondPlayer = userId (snd p), status = AwaitingPlacement\<rparr>"

definition schedulerTick :: "QueueEntry list \<Rightarrow> ArrangedMatch list \<times> QueueEntry list" where
  "schedulerTick queue =
     (case pairConsecutive queue of (pairs, left) \<Rightarrow> (map createMatch pairs, left))"

definition plays :: "ObjectId \<Rightarrow> ArrangedMatch \<Rightarrow> bool" where
  "plays u m = (firstPlayer m = u \<or> secondPlayer m = u)"

section \<open>Example data\<close>

text \<open>
  Scenario D of the spec: three shots over the two grids, one of them a hit, one ship
  destroyed.
\<close>

definition scenarioD :: MatchDocument where
  "scenarioD =
     \<lparr>player1 = \<lparr>grid = \<lparr>ships = [\<lparr>coordinates = [\<lparr>row = 0, col = 0\<rparr>]\<rparr>],
                             shotsReceived = [\<lparr>row = 0, col = 0\<rparr>, \<lparr>row = 5, col = 5\<rparr>]\<rparr>\<rparr>,
      player2 = \<lparr>grid = \<lparr>ships = [\<lparr>coordinates = [\<lparr>row = 2, col = 2\<rparr>, \<lparr>row = 2, col = 3\<rparr>]\<rparr>],
                             shotsReceived = [\<lparr>row = 7, col = 7\<rparr>]\<rparr>\<rparr>\<rparr>"

text \<open>A ship whose cells are not on one line, and shots inside its bounding box.\<close>

definition bentShip :: Ship where
  "bentShip = \<lparr>coordinates = [\<lparr>row = 0, col = 0\<rparr>, \<lparr>row = 1, col = 1\<rparr>]\<rparr>"

definition bentShots :: "GridCoordinates list" where
  "bentShots = [\<lparr>row = 0, col = 0\<rparr>, \<lparr>row = 0, col = 1\<rparr>, \<lparr>row = 1, col = 0\<rparr>]"

definition bentMatch :: MatchDocument where
  "bentMatch =
     \<lparr>player1 = \<lparr>grid = \<lparr>ships = [], shotsReceived = []\<rparr>\<rparr>,
      player2 = \<lparr>grid = \<lparr>ships = [bentShip], shotsReceived = bentShots\<rparr>\<rparr>\<rparr>"

definition straightShip :: Ship where
  "straightShip = \<lparr>coordinates = [\<lparr>row = 2, col = 2\<rparr>, \<lparr>row = 2, col = 3\<rparr>]\<rparr>"

definition alice :: UserDocument where
  "alice = \<lparr>user_id = ''u1'', username = ''alice'',
            stats = \<lparr>elo = 10, topElo = 40, wins = 1, losses = 0,
                     shipsDestroyed = 2, totalShots = 20, totalHits = 9\<rparr>\<rparr>"

definition bob :: UserDocument where
  "bob = \<lparr>user_id = ''u2'', username = ''bob'',
          stats = \<lparr>elo = 0, topElo = 0, wins = 0, losses = 0,
                   shipsDestroyed = 0, totalShots = 0, totalHits = 0\<rparr>\<rparr>"

definition exampleDb :: Database where
  "exampleDb = \<lparr>users = [alice, bob], matches = [''m1'' \<mapsto> scenarioD, ''m2'' \<mapsto> bentMatch],
                persistedStats = Map.empty, fault = None\<rparr>"


definition aliceWon :: MatchTerminatedData where
  "aliceWon = \<lparr>winnerUsername = ''alice'', reason = PlayerWon\<rparr>"



definition threeResults :: "MatchResult list" where
  "threeResults =
     [\<lparr>res_shipsDestroyed = 1, res_shots = 12, res_hits = 3, res_won = False\<rparr>,
      \<lparr>res_shipsDestroyed = 0, res_shots = 9, res_hits = 1, res_won = False\<rparr>,
      \<lparr>res_shipsDestroyed = 5, res_shots = 30, res_hits = 17, res_won = True\<rparr>]"

definition negativeStats :: UserStats where
  "negativeStats = \<lparr>elo = - 5, topElo = - 10, wins = 0, losses = 0,
                    shipsDestroyed = 0, totalShots = 0, totalHits = 0\<rparr>"

text \<open>A user whose win counter has reached \<open>2^53\<close>.\<close>

definition veteran :: UserDocument where
  "veteran = \<lparr>user_id = ''u3'', username = ''veteran'',
              stats = \<lparr>elo = 0, topElo = 0, wins = 9007199254740992, losses = 0,
                       shipsDestroyed = 0, totalShots = 0, totalHits = 0\<rparr>\<rparr>"

definition veteranDb :: Database where
  "veteranDb = \<lparr>users = [veteran], matches = Map.empty,
                persistedStats = Map.empty, fault = None\<rparr>"


definition sevenQueued :: "QueueEntry list" where
  "sevenQueued =
     [\<lparr>userId = ''a'', enqueuedAt = 1\<rparr>, \<lparr>userId = ''b'', enqueuedAt = 2\<rparr>,
      \<lparr>userId = ''c'', enqueuedAt = 3\<rparr>, \<lparr>userId = ''d'', enqueuedAt = 4\<rparr>,
      \<lparr>userId = ''e'', enqueuedAt = 5\<rparr>, \<lparr>userId = ''f'', enqueuedAt = 6\<rparr>,
      \<lparr>userId = ''g'', enqueuedAt = 7\<rparr>]"

definition fourQueued :: "QueueEntry list" where
  "fourQueued =
     [\<lparr>userId = ''a'', enqueuedAt = 1\<rparr>, \<lparr>userId = ''b'', enqueuedAt = 2\<rparr>,
      \<lparr>userId = ''c'', enqueuedAt = 3\<rparr>, \<lparr>userId = ''d'', enqueuedAt = 4\<rparr>]"

section \<open>Ships destroyed and shots fired\<close>

lemma countHits_filter:
  "countHits rs cs shots n =
     n + length (filter (\<lambda>s. row s \<in> set rs \<and> col s \<in> set cs) shots)"
  by (induction shots arbitrary: n) simp_all

lemma collinear_box:
  fixes shot :: GridCoordinates
  assumes "collinear ship"
  shows "(row shot \<in> set (shipRows ship) \<and> col shot \<in> set (shipCols ship)) = shot_hits ship shot"
proof
  assume box: "row shot \<in> set (shipRows ship) \<and> col shot \<in> set (shipCols ship)"
  then obtain c d where c: "c \<in> set (coordinates ship)" "row c = row shot"
    and d: "d \<in> set (coordinates ship)" "col d = col shot"
    by (auto simp: shipRows_def shipCols_def)
  from assms consider
    (rows) "\<forall>x \<in> set (coordinates ship). \<forall>y \<in> set (coordinates ship). row x = row y"
    | (cols) "\<forall>x \<in> set (coordinates ship). \<forall>y \<in> set (coordinates ship). col x = col y"
    by (auto simp: collinear_def)
  then show "shot_hits ship shot"
  proof cases
    case rows
    with c d have "row d = row shot" by metis
    with d have "d = shot" by simp
    with d show ?thesis by (simp add: shot_hits_def)
  next
    case cols
    with c d have "col c = col shot" by metis
    with c have "c = shot" by simp
    with c show ?thesis by (simp add: shot_hits_def)
  qed
next
  assume "shot_hits ship shot"
  then show "row shot \<in> set (shipRows ship) \<and> col shot \<in> set (shipCols ship)"
    by (auto simp: shot_hits_def shipRows_def shipCols_def)
qed

lemma hits_le_length:
  assumes "distinct shots"
  shows "length (filter (shot_hits ship) shots) \<le> length (coordinates ship)"
proof -
  have "distinct (filter (shot_hits ship) shots)" using assms by simp
  then have "length (filter (shot_hits ship) shots) = card (set (filter (shot_hits ship) shots))"
    by (rule distinct_card [symmetric])
  also have "\<dots> \<le> card (set (coordinates ship))"
    by (rule card_mono) (auto simp: shot_hits_def)
  also have "\<dots> \<le> length (coordinates ship)" by (rule card_length)
  finally show ?thesis .
qed

lemma countHits_collinear:
  assumes "collinear ship"
  shows "countHits (shipRows ship) (shipCols ship) shots 0 = length (filter (shot_hits ship) shots)"
proof -
  have "(\<lambda>s. row s \<in> set (shipRows ship) \<and> col s \<in> set (shipCols ship)) = shot_hits ship"
    using collinear_box [OF assms] by (intro ext) simp
  then show ?thesis by (simp add: countHits_filter)
qed

lemma isShipDestroyed_spec:
  assumes "collinear ship" and "distinct shots"
  shows "isShipDestroyed ship shots = Inr (destroyed_spec ship shots)"
  using hits_le_length [OF assms(2), of ship] countHits_collinear [OF assms(1), of shots]
  by (auto simp: isShipDestroyed_def destroyed_spec_def Let_def)

lemma forEachShip_spec:
  assumes "\<forall>ship \<in> set ss. collinear ship" and "distinct shots"
  shows "forEachShip shots ss tot =
           Inr (tot + length (filter (\<lambda>ship. destroyed_spec ship shots) ss))"
  using assms
  by (induction ss arbitrary: tot) (simp_all add: isShipDestroyed_spec)

lemma forEachGrid_spec:
  assumes "\<forall>g \<in> set gs. grid_inv g"
  shows "forEachGrid gs tot = Inr (tot + sum_list (map ships_destroyed_spec gs))"
  using assms
proof (induction gs arbitrary: tot)
  case Nil
  then show ?case by simp
next
  case (Cons g gs)
  from Cons.prems have "\<forall>ship \<in> set (ships g). collinear ship" and "distinct (shotsReceived g)"
    by (auto simp: grid_inv_def ship_inv_def)
  then have "forEachShip (shotsReceived g) (ships g) tot = Inr (tot + ships_destroyed_spec g)"
    by (simp add: forEachShip_spec ships_destroyed_spec_def)
  with Cons show ?case by simp
qed

text \<open>
  C1. On grids that satisfy the invariants (every ship collinear and contiguous, no cell
  fired on twice) the \<open>shipsDestroyed\<close> statistic is computed without error and is the
  number of ships, over the two grids, for which exactly as many of the grid's shots hit
  the ship as the ship has cells.
\<close>

theorem shipsDestroyed_counts_destroyed_ships:
  assumes "grid_inv (grid (player1 match))" and "grid_inv (grid (player2 match))"
  shows "getTotalShipsDestroyed match =
           Inr (ships_destroyed_spec (grid (player1 match)) +
                ships_destroyed_spec (grid (player2 match)))"
proof -
  have "\<forall>g \<in> set [grid (player1 match), grid (player2 match)]. grid_inv g"
    using assms by simp
  from forEachGrid_spec [OF this, of 0] show ?thesis
    by (simp add: getTotalShipsDestroyed_def)
qed

lemma scenarioD_inv:
  "grid_inv (grid (player1 scenarioD))" "grid_inv (grid (player2 scenarioD))"
  by (simp_all add: scenarioD_def grid_inv_def ship_inv_def collinear_def adjacent_def)

theorem shipsDestroyed_counts_destroyed_ships_witness:
  "grid_inv (grid (player1 scenarioD)) \<and> grid_inv (grid (player2 scenarioD)) \<and>
   getTotalShipsDestroyed scenarioD = Inr 1"
  using shipsDestroyed_counts_destroyed_ships [OF scenarioD_inv] scenarioD_inv
  by (simp add: scenarioD_def ships_destroyed_spec_def destroyed_spec_def shot_hits_def)

text \<open>
  C2. The \<open>totalShots\<close> statistic is the length of player 1's \<open>shotsReceived\<close> plus the
  length of player 2's; and when the winner and the match are loaded and the ships are
  counted, this sum is the \<open>totalShots\<close> field of the update handed to \<open>updateMatchStats\<close>.
\<close>

theorem totalShots_is_sum:
  "getTotalShotsFired match =
     length (shotsReceived (grid (player1 match))) + length (shotsReceived (grid (player2 match))) \<and>
   (getUserByUsername d (winnerUsername data) = Inr winner \<and>
    getMatchById mm d (matchId e) = Inr match \<and>
    getTotalShipsDestroyed match = Inr n \<longrightarrow>
      updateStatistics mm e data now d =
        updateMatchStats mm (matchId e)
          \<lparr>upd_winner = user_id winner, upd_endTime = now,
           upd_totalShots = length (shotsReceived (grid (player1 match))) +
                            length (shotsReceived (grid (player2 match))),
           upd_shipsDestroyed = n\<rparr> d)"
  by (simp add: getTotalShotsFired_def updateStatistics_def Let_def)

lemma forEachShip_error:
  "forEachShip shots ss tot = Inl err \<Longrightarrow> err = Error hitsMessage"
  by (induction ss arbitrary: tot)
     (auto simp: isShipDestroyed_def Let_def split: sum.splits if_splits)



lemma forEachShip_excess:
  assumes "ship \<in> set ss"
    and "length (coordinates ship) < countHits (shipRows ship) (shipCols ship) shots 0"
  shows "forEachShip shots ss tot = Inl (Error hitsMessage)"
  using assms
proof (induction ss arbitrary: tot)
  case Nil
  then show ?case by simp
next
  case (Cons s ss)
  show ?case
  proof (cases "isShipDestroyed s shots")
    case (Inl err)
    then have "err = Error hitsMessage"
      by (simp add: isShipDestroyed_def Let_def split: if_splits)
    with Inl show ?thesis by simp
  next
    case (Inr b)
    then have "s \<noteq> ship" using Cons.prems(2)
      by (auto simp: isShipDestroyed_def Let_def split: if_splits)
    with Cons.prems have "ship \<in> set ss" by simp
    with Cons.IH Cons.prems(2) Inr show ?thesis by simp
  qed
qed

lemma forEachGrid_excess:
  assumes "g \<in> set gs" and "ship \<in> set (ships g)"
    and "length (coordinates ship) < countHits (shipRows ship) (shipCols ship) (shotsReceived g) 0"
  shows "forEachGrid gs tot = Inl (Error hitsMessage)"
  using assms(1)
proof (induction gs arbitrary: tot)
  case Nil
  then show ?case by simp
next
  case (Cons h gs)
  show ?case
  proof (cases "forEachShip (shotsReceived h) (ships h) tot")
    case (Inl err)
    then have "err = Error hitsMessage" by (rule forEachShip_error)
    with Inl show ?thesis by simp
  next
    case (Inr t)
    then have "h \<noteq> g" using forEachShip_excess [OF assms(2,3), of tot] by auto
    with Cons.prems have "g \<in> set gs" by simp
    with Cons.IH Inr show ?thesis by simp
  qed
qed

text \<open>
  C8. When the hits counted on a ship exceed the number of its cells, \<open>isShipDestroyed\<close>
  throws an error, and the error ends \<open>getTotalShipsDestroyed\<close> for the whole match; for a
  ship that satisfies the invariants and shots without duplicates the count never exceeds
  the number of cells, so the error cannot be thrown.
\<close>

theorem excess_hits_abort:
  "(length (coordinates ship) < countHits (shipRows ship) (shipCols ship) shots 0 \<longrightarrow>
      isShipDestroyed ship shots = Inl (Error hitsMessage)) \<and>
   (ship \<in> set (ships g) \<and> (g = grid (player1 match) \<or> g = grid (player2 match)) \<and>
    length (coordinates ship) < countHits (shipRows ship) (shipCols ship) (shotsReceived g) 0 \<longrightarrow>
      getTotalShipsDestroyed match = Inl (Error hitsMessage)) \<and>
   (ship_inv ship \<and> distinct shots \<longrightarrow>
      countHits (shipRows ship) (shipCols ship) shots 0 \<le> length (coordinates ship) \<and>
      (\<exists>b. isShipDestroyed ship shots = Inr b))"
proof (intro conjI impI)
  assume "length (coordinates ship) < countHits (shipRows ship) (shipCols ship) shots 0"
  then show "isShipDestroyed ship shots = Inl (Error hitsMessage)"
    by (simp add: isShipDestroyed_def Let_def)
next
  assume a: "ship \<in> set (ships g) \<and> (g = grid (player1 match) \<or> g = grid (player2 match)) \<and>
    length (coordinates ship) < countHits (shipRows ship) (shipCols ship) (shotsReceived g) 0"
  then have "g \<in> set [grid (player1 match), grid (player2 match)]" by auto
  from forEachGrid_excess [OF this, of ship 0] a
  show "getTotalShipsDestroyed match = Inl (Error hitsMessage)"
    by (simp add: getTotalShipsDestroyed_def)
next
  assume a: "ship_inv ship \<and> distinct shots"
  then have c: "collinear ship" and d: "distinct shots" by (simp_all add: ship_inv_def)
  show "countHits (shipRows ship) (shipCols ship) shots 0 \<le> length (coordinates ship)"
    using countHits_collinear [OF c, of shots] hits_le_length [OF d, of ship] by simp
  show "\<exists>b. isShipDestroyed ship shots = Inr b"
    using isShipDestroyed_spec [OF c d] by blast
qed

theorem excess_hits_abort_witness:
  "length (coordinates bentShip) < countHits (shipRows bentShip) (shipCols bentShip) bentShots 0 \<and>
   isShipDestroyed bentShip bentShots = Inl (Error hitsMessage) \<and>
   bentShip \<in> set (ships (grid (player2 bentMatch))) \<and>
   getTotalShipsDestroyed bentMatch = Inl (Error hitsMessage) \<and>
   ship_inv straightShip \<and> distinct bentShots \<and>
   (\<exists>b. isShipDestroyed straightShip bentShots = Inr b)"
proof -
  have h: "length (coordinates bentShip) < countHits (shipRows bentShip) (shipCols bentShip) bentShots 0"
    by (simp add: bentShip_def bentShots_def shipRows_def shipCols_def)
  have m: "bentShip \<in> set (ships (grid (player2 bentMatch)))"
    "shotsReceived (grid (player2 bentMatch)) = bentShots"
    by (simp_all add: bentMatch_def)
  have s: "ship_inv straightShip" "distinct bentShots"
    by (simp_all add: straightShip_def bentShots_def ship_inv_def collinear_def adjacent_def)
  show ?thesis
    using h m s excess_hits_abort [of bentShip bentShots "grid (player2 bentMatch)" bentMatch]
      excess_hits_abort [of straightShip bentShots "grid (player2 bentMatch)" bentMatch]
    by simp
qed

section \<open>User statistics\<close>

lemma getUserById_Inr:
  "getUserById d uid = Inr u \<longleftrightarrow>
     fault d = None \<and> find (\<lambda>x. user_id x = uid) (users d) = Some u"
  by (auto simp: getUserById_def UserModel_findOne_def split: option.splits)

lemma find_after_replace:
  assumes "find (\<lambda>x. user_id x = uid) docs = Some u" and "user_id u' = uid"
  shows "find (\<lambda>x. user_id x = uid) (map (\<lambda>x. if user_id x = user_id u' then u' else x) docs) = Some u'"
  using assms by (induction docs) (auto split: if_splits)

lemma save_stats_then_get:
  assumes "getUserById d uid = Inr u"
  shows "\<exists>d'. save d (u\<lparr>stats := s\<rparr>) = Inr (u\<lparr>stats := s\<rparr>, d') \<and>
              getUserById d' uid = Inr (u\<lparr>stats := s\<rparr>)"
proof -
  from assms have f: "fault d = None" and g: "find (\<lambda>x. user_id x = uid) (users d) = Some u"
    by (simp_all add: getUserById_Inr)
  from g have "user_id u = uid" by (auto simp: find_Some_iff)
  then have "user_id (u\<lparr>stats := s\<rparr>) = uid" by simp
  from find_after_replace [OF g this] f show ?thesis
    by (simp add: save_def getUserById_Inr)
qed

lemma jsAdd_safe: "isSafeInteger (a + b) \<Longrightarrow> jsAdd a b = a + b"
  by (simp add: jsAdd_def roundToDouble_def isSafeInteger_def)

lemma addMatchStats_fields:
  assumes "getUserById d uid = Inr u"
  shows "\<exists>u' d'. addMatchStats d uid nsd ns nh won = Inr (u', d') \<and>
           getUserById d' uid = Inr u' \<and>
           elo (stats u') = max 0 (jsAdd (elo (stats u)) (if won then 30 else - 20)) \<and>
           topElo (stats u') = max (topElo (stats u)) (elo (stats u')) \<and>
           wins (stats u') = jsAdd (wins (stats u)) (if won then 1 else 0) \<and>
           losses (stats u') = jsAdd (losses (stats u)) (if won then 0 else 1) \<and>
           shipsDestroyed (stats u') = jsAdd (shipsDestroyed (stats u)) nsd \<and>
           totalShots (stats u') = jsAdd (totalShots (stats u)) ns \<and>
           totalHits (stats u') = jsAdd (totalHits (stats u)) nh"
proof -
  obtain s where s: "addMatchStats d uid nsd ns nh won = save d (u\<lparr>stats := s\<rparr>)"
    and f: "elo s = max 0 (jsAdd (elo (stats u)) (if won then 30 else - 20))"
      "topElo s = max (topElo (stats u)) (elo s)"
      "wins s = jsAdd (wins (stats u)) (if won then 1 else 0)"
      "losses s = jsAdd (losses (stats u)) (if won then 0 else 1)"
      "shipsDestroyed s = jsAdd (shipsDestroyed (stats u)) nsd"
      "totalShots s = jsAdd (totalShots (stats u)) ns"
      "totalHits s = jsAdd (totalHits (stats u)) nh"
    using assms by (simp add: addMatchStats_def Let_def max_def)
  from save_stats_then_get [OF assms, of s] s f show ?thesis by auto
qed

lemma updateUserStats_result:
  assumes "getUserById d uid = Inr u"
  shows "\<exists>d'. updateUserStats d uid s = Inr (u\<lparr>stats := s\<rparr>, d') \<and>
              getUserById d' uid = Inr (u\<lparr>stats := s\<rparr>)"
proof -
  have "updateUserStats d uid s = save d (u\<lparr>stats := s\<rparr>)"
    using assms by (cases "stats u"; cases s) (simp add: updateUserStats_def Let_def)
  with save_stats_then_get [OF assms] show ?thesis by simp
qed

text \<open>
  C5, as amended. For a stored user whose counters stay safe integers under the update,
  \<open>addMatchStats\<close> succeeds and saves the user with: on a win, elo plus 30 floored at zero,
  \<open>topElo\<close> raised to the new elo when that is larger, wins plus one and losses unchanged;
  on a loss, elo minus 20 floored at zero, losses plus one and wins unchanged; and in both
  cases the match's ships destroyed, shots and hits added to the user's totals.
\<close>

theorem addMatchStats_winner_and_loser:
  assumes "getUserById d uid = Inr u"
    and "isSafeInteger (elo (stats u) + (if didUserWin then 30 else - 20))"
    and "isSafeInteger (wins (stats u) + (if didUserWin then 1 else 0))"
    and "isSafeInteger (losses (stats u) + (if didUserWin then 0 else 1))"
    and "isSafeInteger (shipsDestroyed (stats u) + newShipsDestroyed)"
    and "isSafeInteger (totalShots (stats u) + newShots)"
    and "isSafeInteger (totalHits (stats u) + newHits)"
  shows "\<exists>u' d'. addMatchStats d uid newShipsDestroyed newShots newHits didUserWin = Inr (u', d') \<and>
           getUserById d' uid = Inr u' \<and>
           (didUserWin \<longrightarrow>
              elo (stats u') = max 0 (elo (stats u) + 30) \<and>
              topElo (stats u') = max (topElo (stats u)) (elo (stats u')) \<and>
              wins (stats u') = wins (stats u) + 1 \<and>
              losses (stats u') = losses (stats u)) \<and>
           (\<not> didUserWin \<longrightarrow>
              elo (stats u') = max 0 (elo (stats u) + (- 20)) \<and>
              losses (stats u') = losses (stats u) + 1 \<and>
              wins (stats u') = wins (stats u)) \<and>
           shipsDestroyed (stats u') = shipsDestroyed (stats u) + newShipsDestroyed \<and>
           totalShots (stats u') = totalShots (stats u) + newShots \<and>
           totalHits (stats u') = totalHits (stats u) + newHits"
proof -
  note exact = assms(2-7) [THEN jsAdd_safe]
  from addMatchStats_fields [OF assms(1), of newShipsDestroyed newShots newHits didUserWin]
  obtain u' d' where r:
    "addMatchStats d uid newShipsDestroyed newShots newHits didUserWin = Inr (u', d')"
    "getUserById d' uid = Inr u'"
    "elo (stats u') = max 0 (jsAdd (elo (stats u)) (if didUserWin then 30 else - 20))"
    "topElo (stats u') = max (topElo (stats u)) (elo (stats u'))"
    "wins (stats u') = jsAdd (wins (stats u)) (if didUserWin then 1 else 0)"
    "losses (stats u') = jsAdd (losses (stats u)) (if didUserWin then 0 else 1)"
    "shipsDestroyed (stats u') = jsAdd (shipsDestroyed (stats u)) newShipsDestroyed"
    "totalShots (stats u') = jsAdd (totalShots (stats u)) newShots"
    "totalHits (stats u') = jsAdd (totalHits (stats u)) newHits"
    by blast
  have "elo (stats u') = max 0 (elo (stats u) + (if didUserWin then 30 else - 20))"
    and "wins (stats u') = wins (stats u) + (if didUserWin then 1 else 0)"
    and "losses (stats u') = losses (stats u) + (if didUserWin then 0 else 1)"
    and "shipsDestroyed (stats u') = shipsDestroyed (stats u) + newShipsDestroyed"
    and "totalShots (stats u') = totalShots (stats u) + newShots"
    and "totalHits (stats u') = totalHits (stats u) + newHits"
    using r(3,5-9) exact by simp_all
  with r(1,2,4) show ?thesis by (cases didUserWin) auto
qed

lemma addMatchStatsAll_trace:
  assumes "getUserById d uid = Inr u"
  shows "\<exists>trace d'. addMatchStatsAll d uid rs = Inr (trace, d') \<and>
           length trace = length rs \<and>
           (\<forall>s \<in> set trace. 0 \<le> elo s \<and> elo s \<le> topElo s) \<and>
           (\<forall>i < length trace.
              topElo (trace ! i) = max (topElo ((stats u # trace) ! i)) (elo (trace ! i)))"
  using assms
proof (induction rs arbitrary: d u)
  case Nil
  then show ?case by simp
next
  case (Cons r rs)
  from addMatchStats_fields [OF Cons.prems, of "res_shipsDestroyed r" "res_shots r" "res_hits r" "res_won r"]
  obtain u' d' where
    step: "addMatchStats d uid (res_shipsDestroyed r) (res_shots r) (res_hits r) (res_won r) = Inr (u', d')"
    and get: "getUserById d' uid = Inr u'"
    and e: "elo (stats u') = max 0 (jsAdd (elo (stats u)) (if res_won r then 30 else - 20))"
    and t: "topElo (stats u') = max (topElo (stats u)) (elo (stats u'))"
    by blast
  from Cons.IH [OF get] obtain trace d'' where
    rest: "addMatchStatsAll d' uid rs = Inr (trace, d'')"
    and len: "length trace = length rs"
    and inv: "\<forall>s \<in> set trace. 0 \<le> elo s \<and> elo s \<le> topElo s"
    and run: "\<forall>i < length trace.
                topElo (trace ! i) = max (topElo ((stats u' # trace) ! i)) (elo (trace ! i))"
    by blast
  have run': "\<forall>i < length (stats u' # trace).
                topElo ((stats u' # trace) ! i) =
                  max (topElo ((stats u # stats u' # trace) ! i)) (elo ((stats u' # trace) ! i))"
  proof (intro allI impI)
    fix i assume "i < length (stats u' # trace)"
    then show "topElo ((stats u' # trace) ! i) =
                  max (topElo ((stats u # stats u' # trace) ! i)) (elo ((stats u' # trace) ! i))"
      using t run by (cases i) simp_all
  qed
  have "addMatchStatsAll d uid (r # rs) = Inr (stats u' # trace, d'')"
    using step rest by simp
  moreover have "length (stats u' # trace) = length (r # rs)" using len by simp
  moreover have "\<forall>s \<in> set (stats u' # trace). 0 \<le> elo s \<and> elo s \<le> topElo s"
    using inv e t by simp
  ultimately show ?case using run' by blast
qed

text \<open>
  C4. For a stored user and any list of match results applied one after the other through
  \<open>addMatchStats\<close>, every update succeeds, and after each of them the user's elo is at least
  zero and at most \<open>topElo\<close>, where \<open>topElo\<close> is the larger of its value before the update and
  the new elo; if the bound held before the first update, it holds in every state of the
  run.
\<close>

theorem elo_floor_and_running_maximum:
  assumes "getUserById d uid = Inr u"
  shows "\<exists>trace d'. addMatchStatsAll d uid rs = Inr (trace, d') \<and>
           length trace = length rs \<and>
           (\<forall>s \<in> set trace. 0 \<le> elo s \<and> elo s \<le> topElo s) \<and>
           (\<forall>i < length trace.
              topElo (trace ! i) = max (topElo ((stats u # trace) ! i)) (elo (trace ! i))) \<and>
           (elo (stats u) \<le> topElo (stats u) \<longrightarrow>
              (\<forall>s \<in> set (stats u # trace). elo s \<le> topElo s))"
proof -
  from addMatchStatsAll_trace [OF assms, of rs] obtain trace d' where
    t: "addMatchStatsAll d uid rs = Inr (trace, d')" "length trace = length rs"
      "\<forall>s \<in> set trace. 0 \<le> elo s \<and> elo s \<le> topElo s"
      "\<forall>i < length trace.
         topElo (trace ! i) = max (topElo ((stats u # trace) ! i)) (elo (trace ! i))"
    by blast
  from t(3) have "elo (stats u) \<le> topElo (stats u) \<longrightarrow>
      (\<forall>s \<in> set (stats u # trace). elo s \<le> topElo s)"
    by simp
  with t show ?thesis by blast
qed

text \<open>
  C10. For a stored user, \<open>updateUserStats\<close> succeeds and saves exactly the seven values it
  is given: a negative elo stays negative and a \<open>topElo\<close> below the elo stays below it.
\<close>

theorem updateUserStats_verbatim:
  assumes "getUserById d uid = Inr u"
  shows "\<exists>u' d'. updateUserStats d uid updatedStats = Inr (u', d') \<and>
           getUserById d' uid = Inr u' \<and>
           stats u' = updatedStats \<and>
           elo (stats u') = elo updatedStats \<and>
           topElo (stats u') = topElo updatedStats \<and>
           wins (stats u') = wins updatedStats \<and>
           losses (stats u') = losses updatedStats \<and>
           shipsDestroyed (stats u') = shipsDestroyed updatedStats \<and>
           totalShots (stats u') = totalShots updatedStats \<and>
           totalHits (stats u') = totalHits updatedStats \<and>
           (elo updatedStats < 0 \<longrightarrow> elo (stats u') < 0) \<and>
           (topElo updatedStats < elo updatedStats \<longrightarrow> topElo (stats u') < elo (stats u'))"
  using updateUserStats_result [OF assms, of updatedStats] by auto

lemma alice_loaded: "getUserById exampleDb ''u1'' = Inr alice"
  by (simp add: getUserById_def UserModel_findOne_def exampleDb_def alice_def)

lemma alice_by_name: "getUserByUsername exampleDb ''alice'' = Inr alice"
  by (simp add: getUserByUsername_def UserModel_findOne_def exampleDb_def alice_def)

theorem addMatchStats_winner_and_loser_witness:
  "getUserById exampleDb ''u1'' = Inr alice \<and>
   isSafeInteger (elo (stats alice) + 30) \<and> isSafeInteger (elo (stats alice) + (- 20)) \<and>
   isSafeInteger (wins (stats alice) + 1) \<and> isSafeInteger (losses (stats alice) + 1) \<and>
   isSafeInteger (totalShots (stats alice) + 12) \<and>
   (\<exists>u' d'. addMatchStats exampleDb ''u1'' 1 12 3 True = Inr (u', d') \<and>
      elo (stats u') = 40 \<and> topElo (stats u') = 40 \<and> wins (stats u') = 2 \<and>
      losses (stats u') = 0 \<and> totalShots (stats u') = 32) \<and>
   (\<exists>u' d'. addMatchStats exampleDb ''u1'' 1 12 3 False = Inr (u', d') \<and>
      elo (stats u') = 0 \<and> wins (stats u') = 1 \<and> losses (stats u') = 1)"
proof -
  have a: "stats alice = \<lparr>elo = 10, topElo = 40, wins = 1, losses = 0,
                     shipsDestroyed = 2, totalShots = 20, totalHits = 9\<rparr>"
    by (simp add: alice_def)
  have safe: "isSafeInteger (elo (stats alice) + 30)" "isSafeInteger (elo (stats alice) + (- 20))"
    "isSafeInteger (wins (stats alice) + 1)" "isSafeInteger (wins (stats alice) + 0)"
    "isSafeInteger (losses (stats alice) + 1)" "isSafeInteger (losses (stats alice) + 0)"
    "isSafeInteger (shipsDestroyed (stats alice) + 1)"
    "isSafeInteger (totalShots (stats alice) + 12)" "isSafeInteger (totalHits (stats alice) + 3)"
    by (simp_all add: a isSafeInteger_def)
  from addMatchStats_winner_and_loser [of exampleDb "''u1''" alice True 1 12 3] alice_loaded safe
  have w: "\<exists>u' d'. addMatchStats exampleDb ''u1'' 1 12 3 True = Inr (u', d') \<and>
      elo (stats u') = 40 \<and> topElo (stats u') = 40 \<and> wins (stats u') = 2 \<and>
      losses (stats u') = 0 \<and> totalShots (stats u') = 32"
    by (auto simp: a)
  from addMatchStats_winner_and_loser [of exampleDb "''u1''" alice False 1 12 3] alice_loaded safe
  have l: "\<exists>u' d'. addMatchStats exampleDb ''u1'' 1 12 3 False = Inr (u', d') \<and>
      elo (stats u') = 0 \<and> wins (stats u') = 1 \<and> losses (stats u') = 1"
    by (auto simp: a)
  from alice_loaded safe w l show ?thesis by blast
qed

lemma veteran_loaded: "getUserById veteranDb ''u3'' = Inr veteran"
  by (simp add: getUserById_def UserModel_findOne_def veteranDb_def veteran_def)

lemma jsAdd_at_2_53: "jsAdd 9007199254740992 1 = 9007199254740992"
  by (simp add: jsAdd_def roundToDouble_def excess.simps Let_def)

theorem wins_not_incremented_counterexample:
  "wins (stats veteran) = 9007199254740992 \<and>
   map_sum id (wins \<circ> stats \<circ> fst) (addMatchStats veteranDb ''u3'' 0 0 0 True) =
     Inr 9007199254740992"
proof -
  have v: "wins (stats veteran) = 9007199254740992" by (simp add: veteran_def)
  from addMatchStats_fields [OF veteran_loaded, of 0 0 0 True] v jsAdd_at_2_53
  show ?thesis by auto
qed

theorem elo_floor_and_running_maximum_witness:
  "getUserById exampleDb ''u1'' = Inr alice \<and> elo (stats alice) \<le> topElo (stats alice) \<and>
   (\<exists>trace d'. addMatchStatsAll exampleDb ''u1'' threeResults = Inr (trace, d') \<and>
      length trace = 3 \<and> (\<forall>s \<in> set trace. 0 \<le> elo s \<and> elo s \<le> topElo s) \<and>
      (\<forall>s \<in> set (stats alice # trace). elo s \<le> topElo s))"
proof -
  have "length threeResults = 3" by (simp add: threeResults_def)
  moreover have "elo (stats alice) \<le> topElo (stats alice)" by (simp add: alice_def)
  ultimately show ?thesis
    using elo_floor_and_running_maximum [OF alice_loaded, of threeResults] alice_loaded
    by auto
qed

theorem updateUserStats_verbatim_witness:
  "getUserById exampleDb ''u1'' = Inr alice \<and>
   elo negativeStats < 0 \<and> topElo negativeStats < elo negativeStats \<and>
   (\<exists>u' d'. updateUserStats exampleDb ''u1'' negativeStats = Inr (u', d') \<and>
      stats u' = negativeStats \<and> elo (stats u') < 0 \<and> topElo (stats u') < elo (stats u'))"
proof -
  have n: "elo negativeStats < 0" "topElo negativeStats < elo negativeStats"
    by (simp_all add: negativeStats_def)
  from updateUserStats_verbatim [OF alice_loaded, of negativeStats] n alice_loaded
  show ?thesis by auto
qed

section \<open>The termination broadcast\<close>


lemma emitted_emit:
  "emitted (emit mm e data now w) =
     emitted w @ [\<lparr>ev_room = roomName e, ev_name = eventName e, ev_data = data\<rparr>]"
  by (simp add: emit_def RoomEmitter_emit_def Let_def split: sum.splits thrown.splits)





text \<open>
  C9. Whatever the emitter built for a match does, the event it sends carries the name
  \<open>match-terminated\<close>, goes to the room named by the match id, and its payload is the pair
  of \<open>winnerUsername\<close> and \<open>reason\<close> it was given, the reason being \<open>PlayerWon\<close> or
  \<open>PlayerLeftTheGame\<close>.
\<close>

theorem match_terminated_event_shape:
  "eventName (newMatchTerminatedEmitter mId) = ''match-terminated'' \<and>
   emitted (emit mm (newMatchTerminatedEmitter mId) data now w) =
     emitted w @
       [\<lparr>ev_room = mId, ev_name = ''match-terminated'',
         ev_data = \<lparr>winnerUsername = winnerUsername data, reason = reason data\<rparr>\<rparr>] \<and>
   reason data \<in> {PlayerWon, PlayerLeftTheGame} \<and>
   reasonValue (reason data) \<in> {''A player has won the game'', ''A player has left the game''}"
proof -
  have "reason data \<in> {PlayerWon, PlayerLeftTheGame}" by (cases "reason data") simp_all
  moreover have "reasonValue (reason data) \<in>
      {''A player has won the game'', ''A player has left the game''}"
    by (cases "reason data") (simp_all add: reasonValue_def)
  ultimately show ?thesis
    by (simp add: emitted_emit newMatchTerminatedEmitter_def Let_def)
qed

lemma scenarioD_destroyed: "getTotalShipsDestroyed scenarioD = Inr 1"
  by (simp add: getTotalShipsDestroyed_def isShipDestroyed_def shipRows_def shipCols_def
      scenarioD_def)

lemma scenarioD_loaded: "getMatchById specMatchModule exampleDb ''m1'' = Inr scenarioD"
  by (simp add: specMatchModule_def loadMatch_def exampleDb_def)


lemma m1_emitter: "matchId (newMatchTerminatedEmitter ''m1'') = ''m1''"
  by (simp add: newMatchTerminatedEmitter_def)

theorem totalShots_is_sum_witness:
  "getUserByUsername exampleDb (winnerUsername aliceWon) = Inr alice \<and>
   getMatchById specMatchModule exampleDb (matchId (newMatchTerminatedEmitter ''m1'')) = Inr scenarioD \<and>
   getTotalShipsDestroyed scenarioD = Inr 1 \<and>
   getTotalShotsFired scenarioD = 3 \<and>
   updateStatistics specMatchModule (newMatchTerminatedEmitter ''m1'') aliceWon 100 exampleDb =
     updateMatchStats specMatchModule ''m1''
       \<lparr>upd_winner = ''u1'', upd_endTime = 100, upd_totalShots = 3, upd_shipsDestroyed = 1\<rparr>
       exampleDb"
proof -
  have a: "getUserByUsername exampleDb (winnerUsername aliceWon) = Inr alice"
    by (simp add: aliceWon_def alice_by_name)
  have b: "getMatchById specMatchModule exampleDb (matchId (newMatchTerminatedEmitter ''m1'')) = Inr scenarioD"
    by (simp add: m1_emitter scenarioD_loaded)
  have c: "length (shotsReceived (grid (player1 scenarioD))) +
           length (shotsReceived (grid (player2 scenarioD))) = 3"
    by (simp add: scenarioD_def)
  have d: "user_id alice = ''u1''" by (simp add: alice_def)
  from totalShots_is_sum [of scenarioD exampleDb aliceWon alice specMatchModule
      "newMatchTerminatedEmitter ''m1''" 1 100] a b c d scenarioD_destroyed m1_emitter
  show ?thesis by simp
qed




section \<open>A second termination attempt\<close>

lemma getUserByUsername_persistedStats:
  "getUserByUsername (d\<lparr>persistedStats := p\<rparr>) name = getUserByUsername d name"
  by (simp add: getUserByUsername_def UserModel_findOne_def split: option.splits)

lemma updateStatistics_Inr:
  assumes "updateStatistics mm e data now d = Inr d'"
  shows "\<exists>upd. updateMatchStats mm (matchId e) upd d = Inr d'"
  using assms
  by (auto simp: updateStatistics_def Let_def split: sum.splits)

lemma db_emit_cases:
  "db (emit mm e data now w) = db w \<or>
   updateStatistics mm e data now (db w) = Inr (db (emit mm e data now w))"
  by (cases "updateStatistics mm e data now (db w)")
     (auto simp: emit_def RoomEmitter_emit_def split: thrown.splits)

text \<open>
  \<open>emit\<close> writes to the store only through \<open>updateMatchStats\<close>: whenever that function
  leaves statistics that are already stored as they are, so does \<open>emit\<close>.
\<close>

lemma emit_keeps_written_stats:
  assumes once: "\<And>upd d d'. persistedStats d mId \<noteq> None \<Longrightarrow>
      updateMatchStats mm mId upd d = Inr d' \<Longrightarrow> persistedStats d' mId = persistedStats d mId"
    and written: "persistedStats (db w) mId \<noteq> None"
  shows "persistedStats (db (emit mm (newMatchTerminatedEmitter mId) data now w)) mId =
           persistedStats (db w) mId"
proof -
  let ?e = "newMatchTerminatedEmitter mId"
  have m: "matchId ?e = mId" by (simp add: newMatchTerminatedEmitter_def)
  from db_emit_cases [of mm ?e data now w] show ?thesis
  proof
    assume "db (emit mm ?e data now w) = db w"
    then show ?thesis by simp
  next
    assume "updateStatistics mm ?e data now (db w) = Inr (db (emit mm ?e data now w))"
    from updateStatistics_Inr [OF this] m obtain upd where
      "updateMatchStats mm mId upd (db w) = Inr (db (emit mm ?e data now w))" by auto
    from once [OF written this] show ?thesis .
  qed
qed







section \<open>One tick of the pairing scheduler\<close>

lemma pairConsecutive_length:
  "length (fst (pairConsecutive q)) = length q div 2"
  by (induction q rule: pairConsecutive.induct) (auto split: prod.splits)

lemma pairConsecutive_left:
  "snd (pairConsecutive q) = (if even (length q) then [] else [last q])"
  by (induction q rule: pairConsecutive.induct) (auto split: prod.splits)

lemma pairConsecutive_nth:
  "i < length q div 2 \<Longrightarrow> fst (pairConsecutive q) ! i = (q ! (2 * i), q ! (2 * i + 1))"
proof (induction q arbitrary: i rule: pairConsecutive.induct)
  case (1 a b rest)
  then show ?case by (cases i) (auto split: prod.splits)
qed simp_all

lemma plays_createMatch:
  "plays u (createMatch (a, b)) = (userId a = u \<or> userId b = u)"
  by (simp add: plays_def createMatch_def)

lemma pairConsecutive_absent:
  "\<forall>x \<in> set q. userId x \<noteq> u \<Longrightarrow>
     filter (plays u) (map createMatch (fst (pairConsecutive q))) = [] \<and>
     filter (\<lambda>l. userId l = u) (snd (pairConsecutive q)) = []"
  by (induction q rule: pairConsecutive.induct)
     (auto simp: plays_createMatch split: prod.splits)

lemma pairConsecutive_once:
  "distinct (map userId q) \<Longrightarrow> en \<in> set q \<Longrightarrow>
     length (filter (plays (userId en)) (map createMatch (fst (pairConsecutive q)))) +
     length (filter (\<lambda>l. userId l = userId en) (snd (pairConsecutive q))) = 1"
proof (induction q rule: pairConsecutive.induct)
  case (1 a b rest)
  obtain pairs left where p: "pairConsecutive rest = (pairs, left)" by (cases "pairConsecutive rest")
  from "1.prems" have d: "userId a \<noteq> userId b" "\<forall>x \<in> set rest. userId x \<noteq> userId a"
    "\<forall>x \<in> set rest. userId x \<noteq> userId b" "distinct (map userId rest)"
    by (auto simp: image_iff)
  show ?case
  proof (cases "en \<in> set rest")
    case True
    with d have ne: "userId en \<noteq> userId a" "userId en \<noteq> userId b" by auto
    from "1.IH" [OF d(4) True] p ne show ?thesis
      by (simp add: plays_createMatch)
  next
    case False
    with "1.prems" have ab: "en = a \<or> en = b" by auto
    then have out: "\<forall>x \<in> set rest. userId x \<noteq> userId en" using d by auto
    from pairConsecutive_absent [OF out] p
    have z: "filter (plays (userId en)) (map createMatch pairs) = []"
      "filter (\<lambda>l. userId l = userId en) left = []" by simp_all
    from ab show ?thesis
    proof
      assume "en = a"
      with z d(1) p show ?thesis by (simp add: plays_createMatch)
    next
      assume "en = b"
      with z d(1) p show ?thesis by (simp add: plays_createMatch)
    qed
  qed
qed auto

lemma schedulerTick_eq:
  "schedulerTick q = (map createMatch (fst (pairConsecutive q)), snd (pairConsecutive q))"
  by (simp add: schedulerTick_def split: prod.splits)

text \<open>
  C3. One tick on a queue of N entries with pairwise different users creates N div 2
  matches, the i-th between the entries at positions 2i and 2i+1 of the queue, and every
  queued user is either in exactly one match or left in the queue, never both. For even N
  nothing is left and every user is in exactly one match; for odd N that is (N - 1) / 2
  matches and the last entry alone is left; seven entries give three matches and one
  entry left.
\<close>

theorem tick_pairs_consecutive_entries:
  assumes "distinct (map userId q)" and "schedulerTick q = (ms, left)"
  shows "length ms = length q div 2 \<and>
         (\<forall>i < length ms.
            firstPlayer (ms ! i) = userId (q ! (2 * i)) \<and>
            secondPlayer (ms ! i) = userId (q ! (2 * i + 1)) \<and>
            status (ms ! i) = AwaitingPlacement) \<and>
         (\<forall>en \<in> set q.
            length (filter (plays (userId en)) ms) +
            length (filter (\<lambda>l. userId l = userId en) left) = 1) \<and>
         (even (length q) \<longrightarrow>
            left = [] \<and> (\<forall>en \<in> set q. length (filter (plays (userId en)) ms) = 1)) \<and>
         (odd (length q) \<longrightarrow>
            length ms = (length q - 1) div 2 \<and> left = [last q] \<and>
            length (filter (plays (userId (last q))) ms) = 0 \<and>
            (\<forall>en \<in> set (butlast q). length (filter (plays (userId en)) ms) = 1)) \<and>
         (length q = 7 \<longrightarrow> length ms = 3 \<and> length left = 1)"
proof -
  from assms(2) have ms: "ms = map createMatch (fst (pairConsecutive q))"
    and left: "left = snd (pairConsecutive q)"
    by (simp_all add: schedulerTick_eq)
  have len: "length ms = length q div 2" by (simp add: ms pairConsecutive_length)
  have nth: "\<forall>i < length ms.
            firstPlayer (ms ! i) = userId (q ! (2 * i)) \<and>
            secondPlayer (ms ! i) = userId (q ! (2 * i + 1)) \<and>
            status (ms ! i) = AwaitingPlacement"
    using len by (simp add: ms pairConsecutive_nth createMatch_def)
  have once: "\<forall>en \<in> set q.
            length (filter (plays (userId en)) ms) +
            length (filter (\<lambda>l. userId l = userId en) left) = 1"
    using pairConsecutive_once [OF assms(1)] by (simp add: ms left)
  have l: "left = (if even (length q) then [] else [last q])"
    by (simp add: left pairConsecutive_left)
  have ev: "even (length q) \<longrightarrow>
            left = [] \<and> (\<forall>en \<in> set q. length (filter (plays (userId en)) ms) = 1)"
  proof
    assume e: "even (length q)"
    with l have "left = []" by simp
    with once show "left = [] \<and> (\<forall>en \<in> set q. length (filter (plays (userId en)) ms) = 1)"
      by simp
  qed
  have od: "odd (length q) \<longrightarrow>
            length ms = (length q - 1) div 2 \<and> left = [last q] \<and>
            length (filter (plays (userId (last q))) ms) = 0 \<and>
            (\<forall>en \<in> set (butlast q). length (filter (plays (userId en)) ms) = 1)"
  proof
    assume o: "odd (length q)"
    then have ne: "q \<noteq> []" by auto
    from o l have ll: "left = [last q]" by simp
    from ne have lq: "last q \<in> set q" by simp
    from once lq ll have z: "length (filter (plays (userId (last q))) ms) = 0" by auto
    have b: "\<forall>en \<in> set (butlast q). length (filter (plays (userId en)) ms) = 1"
    proof
      fix en assume en: "en \<in> set (butlast q)"
      then have inq: "en \<in> set q" by (rule in_set_butlastD)
      from ne have "q = butlast q @ [last q]" by simp
      with assms(1) have "distinct (map userId (butlast q @ [last q]))" by simp
      with en have "userId en \<noteq> userId (last q)" by (auto simp: image_iff)
      with once inq ll show "length (filter (plays (userId en)) ms) = 1" by auto
    qed
    from o have "length q div 2 = (length q - 1) div 2" by presburger
    with len ll z b show "length ms = (length q - 1) div 2 \<and> left = [last q] \<and>
            length (filter (plays (userId (last q))) ms) = 0 \<and>
            (\<forall>en \<in> set (butlast q). length (filter (plays (userId en)) ms) = 1)"
      by simp
  qed
  have seven: "length q = 7 \<longrightarrow> length ms = 3 \<and> length left = 1"
    using len l by auto
  from len nth once ev od seven show ?thesis by blast
qed

theorem tick_pairs_consecutive_entries_witness:
  "distinct (map userId sevenQueued) \<and> length sevenQueued = 7 \<and>
   (\<exists>ms left. schedulerTick sevenQueued = (ms, left) \<and> length ms = 3 \<and>
      left = [\<lparr>userId = ''g'', enqueuedAt = 7\<rparr>] \<and>
      firstPlayer (ms ! 0) = ''a'' \<and> secondPlayer (ms ! 0) = ''b'' \<and>
      length (filter (plays ''c'') ms) = 1) \<and>
   distinct (map userId fourQueued) \<and> even (length fourQueued) \<and>
   (\<exists>ms. schedulerTick fourQueued = (ms, []) \<and> length ms = 2 \<and>
      length (filter (plays ''d'') ms) = 1)"
proof -
  have d7: "distinct (map userId sevenQueued)" and l7: "length sevenQueued = 7"
    and o7: "odd (length sevenQueued)"
    and last7: "last sevenQueued = \<lparr>userId = ''g'', enqueuedAt = 7\<rparr>"
    and nth7: "userId (sevenQueued ! 0) = ''a''" "userId (sevenQueued ! 1) = ''b''"
    and c7: "\<lparr>userId = ''c'', enqueuedAt = 3\<rparr> \<in> set (butlast sevenQueued)"
    by (simp_all add: sevenQueued_def)
  have d4: "distinct (map userId fourQueued)" and l4: "length fourQueued = 4"
    and e4: "even (length fourQueued)"
    and c4: "\<lparr>userId = ''d'', enqueuedAt = 4\<rparr> \<in> set fourQueued"
    by (simp_all add: fourQueued_def)
  obtain ms7 left7 where t7: "schedulerTick sevenQueued = (ms7, left7)"
    by (cases "schedulerTick sevenQueued")
  obtain ms4 left4 where t4: "schedulerTick fourQueued = (ms4, left4)"
    by (cases "schedulerTick fourQueued")
  note r7 = tick_pairs_consecutive_entries [OF d7 t7]
  note r4 = tick_pairs_consecutive_entries [OF d4 t4]
  from r7 l7 have len7: "length ms7 = 3" by simp
  from r7 o7 last7 have left7: "left7 = [\<lparr>userId = ''g'', enqueuedAt = 7\<rparr>]" by simp
  from r7 have "\<forall>i < length ms7.
      firstPlayer (ms7 ! i) = userId (sevenQueued ! (2 * i)) \<and>
      secondPlayer (ms7 ! i) = userId (sevenQueued ! (2 * i + 1)) \<and>
      status (ms7 ! i) = AwaitingPlacement" by blast
  with len7 have "firstPlayer (ms7 ! 0) = userId (sevenQueued ! (2 * 0)) \<and>
      secondPlayer (ms7 ! 0) = userId (sevenQueued ! (2 * 0 + 1))" by simp
  with nth7 have p7: "firstPlayer (ms7 ! 0) = ''a''" "secondPlayer (ms7 ! 0) = ''b''" by simp_all
  from r7 o7 have "\<forall>en \<in> set (butlast sevenQueued). length (filter (plays (userId en)) ms7) = 1"
    by blast
  with c7 have once7: "length (filter (plays ''c'') ms7) = 1" by force
  from r4 l4 have len4: "length ms4 = 2" by simp
  from r4 e4 have left4: "left4 = []"
    and "\<forall>en \<in> set fourQueued. length (filter (plays (userId en)) ms4) = 1" by blast+
  with c4 have once4: "length (filter (plays ''d'') ms4) = 1" by force
  from d7 l7 t7 len7 left7 p7 once7 d4 e4 t4 len4 left4 once4 show ?thesis by simp
qed

end
